theory Spec2Isabelle
  imports Main
begin

section \<open>Identifiers\<close>

text \<open>
  \<^verbatim>\<open>entities/ID\<close>: an identifier is an opaque string.
\<close>

type_synonym ID = string

section \<open>The tag tree (components/TagTree.tsx)\<close>

subsection \<open>Observable arrays\<close>

text \<open>
  The lists of the stores are mobx observable arrays. The operations the code uses:
  \<^verbatim>\<open>includes(x)\<close> is membership, \<^verbatim>\<open>push(x)\<close> appends at the end,
  \<^verbatim>\<open>remove(x)\<close> deletes the first element equal to \<open>x\<close> and does nothing when
  there is none (\<^const>\<open>remove1\<close>), \<^verbatim>\<open>indexOf(x)\<close> is the position of the first
  element equal to \<open>x\<close>, or \<open>-1\<close>, and \<^verbatim>\<open>splice(start, 0, x)\<close> inserts \<open>x\<close>
  before position \<open>start\<close>, where a negative \<open>start\<close> counts from the end and a
  \<open>start\<close> out of range is clamped to the ends of the array.
\<close>

definition push :: "'a \<Rightarrow> 'a list \<Rightarrow> 'a list" where
  "push x xs = xs @ [x]"

fun indexOf :: "'a list \<Rightarrow> 'a \<Rightarrow> int" where
  "indexOf [] x = -1"
| "indexOf (y # ys) x =
     (if y = x then 0
      else (let r = indexOf ys x in if r < 0 then -1 else r + 1))"

definition splice_insert :: "int \<Rightarrow> 'a \<Rightarrow> 'a list \<Rightarrow> 'a list" where
  "splice_insert start x xs =
     (let n = int (length xs);
          s = (if start < 0 then max 0 (n + start) else min start n)
      in take (nat s) xs @ [x] @ drop (nat s) xs)"

text \<open>
  \<^verbatim>\<open>list.find(p)\<close> returns the first element that satisfies \<open>p\<close>. The element is
  an object of the array, which the caller goes on to mutate; the model returns its
  position, which stands for the object.
\<close>

fun findIndex :: "('a \<Rightarrow> bool) \<Rightarrow> 'a list \<Rightarrow> nat option" where
  "findIndex p [] = None"
| "findIndex p (x # xs) =
     (if p x then Some 0
      else (case findIndex p xs of None \<Rightarrow> None | Some i \<Rightarrow> Some (Suc i)))"

subsection \<open>Collections\<close>

text \<open>
  A \<^verbatim>\<open>ClientTagCollection\<close> has an id, the ids of its tags (\<^verbatim>\<open>tags\<close>) and the ids
  of its sub-collections (\<^verbatim>\<open>subCollections\<close>), both observable arrays.
  \<^verbatim>\<open>store.tagCollectionList\<close> is the array of all collection objects.
\<close>

record ClientTagCollection =
  id_col :: ID
  tags :: "ID list"
  subCollections :: "ID list"

type_synonym tagCollectionList = "ClientTagCollection list"

text \<open>
  Modelled from the spec: the getter \<^verbatim>\<open>clientSubCollections\<close> of
  \<^verbatim>\<open>ClientTagCollection\<close> (entities/TagCollection) is not part of the sources at hand.
  It resolves the ids in \<^verbatim>\<open>subCollections\<close> to the collection objects of the store;
  by the tree invariant of the data model (no cycles, no shared parents) the objects
  reachable from a collection form a finite tree. A \<open>CollectionNode\<close> is a collection
  object together with the objects its getter returns, in their listed order.
\<close>

datatype CollectionNode =
  CollectionNode (collection: ClientTagCollection) (clientSubCollections: "CollectionNode list")

subsection \<open>Expand state\<close>

text \<open>
  \<^verbatim>\<open>IExpandState\<close> is a JavaScript object used as a dictionary from ids to booleans.
  \<^verbatim>\<open>setExpandStateRecursively\<close> receives a reference to such an object, assigns to
  its properties and returns the reference it was given. Object identity is made
  explicit: a heap is a list of objects, a reference is a position in it.
  \<^verbatim>\<open>
  const setExpandStateRecursively = (col, val, expandState) => {
    col.clientSubCollections.forEach((subCol) => {
      setExpandStateRecursively(subCol, val, expandState);
    });
    expandState[col.id] = val;
    return expandState;
  };
  \<close>
\<close>

type_synonym IExpandState = "ID \<rightharpoonup> bool"
type_synonym ref = nat
type_synonym heap = "IExpandState list"

definition assign :: "ref \<Rightarrow> ID \<Rightarrow> bool \<Rightarrow> heap \<Rightarrow> heap" where
  "assign r k v h = h[r := (h ! r)(k \<mapsto> v)]"

fun setExpandStateRecursively :: "CollectionNode \<Rightarrow> bool \<Rightarrow> ref \<Rightarrow> heap \<Rightarrow> ref \<times> heap"
  and setExpandStateForEach :: "CollectionNode list \<Rightarrow> bool \<Rightarrow> ref \<Rightarrow> heap \<Rightarrow> heap"
where
  "setExpandStateRecursively (CollectionNode c subs) val expandState h =
     (let h1 = setExpandStateForEach subs val expandState h
      in (expandState, assign expandState (id_col c) val h1))"
| "setExpandStateForEach [] val expandState h = h"
| "setExpandStateForEach (subCol # rest) val expandState h =
     setExpandStateForEach rest val expandState
       (snd (setExpandStateRecursively subCol val expandState h))"

text \<open>
  The object spread \<^verbatim>\<open>{ ...o }\<close> allocates a new object with the properties of
  \<open>o\<close>. \<^verbatim>\<open>onExpandAll\<close> and \<^verbatim>\<open>onCollapseAll\<close> hand such a copy to
  \<^verbatim>\<open>setExpandState\<close>:
  \<^verbatim>\<open>
  onExpandAll={() => setExpandState({ ...setExpandStateRecursively(col, true, expandState) })}
  onCollapseAll={() => setExpandState({ ...setExpandStateRecursively(col, false, expandState) })}
  \<close>
  The model returns the reference passed to \<^verbatim>\<open>setExpandState\<close> and the heap.
\<close>

definition spread :: "ref \<Rightarrow> heap \<Rightarrow> ref \<times> heap" where
  "spread r h = (length h, h @ [h ! r])"

definition onExpandAll :: "CollectionNode \<Rightarrow> ref \<Rightarrow> heap \<Rightarrow> ref \<times> heap" where
  "onExpandAll c expandState h =
     (case setExpandStateRecursively c True expandState h of (r, h1) \<Rightarrow> spread r h1)"

definition onCollapseAll :: "CollectionNode \<Rightarrow> ref \<Rightarrow> heap \<Rightarrow> ref \<times> heap" where
  "onCollapseAll c expandState h =
     (case setExpandStateRecursively c False expandState h of (r, h1) \<Rightarrow> spread r h1)"

text \<open>The ids of a collection and of all the collections below it.\<close>

fun collectionIds :: "CollectionNode \<Rightarrow> ID list" where
  "collectionIds (CollectionNode c subs) = id_col c # concat (map collectionIds subs)"

subsection \<open>Moving collections and tags\<close>

text \<open>
  The handlers of a collection node \<open>col\<close>; \<open>col\<close> is an object of
  \<^verbatim>\<open>store.tagCollectionList\<close> and is given by its position there.
  \<^verbatim>\<open>
  onMoveCollection={(id) => {
    const movedCollectionParent = store.tagCollectionList.find((c) => c.subCollections.includes(id));
    if (movedCollectionParent) {
      movedCollectionParent.subCollections.remove(id);
      col.subCollections.push(id);
    }
  }}
  \<close>
\<close>

definition onMoveCollection :: "nat \<Rightarrow> ID \<Rightarrow> tagCollectionList \<Rightarrow> tagCollectionList" where
  "onMoveCollection col ident l =
     (case findIndex (\<lambda>c. ident \<in> set (subCollections c)) l of
        None \<Rightarrow> l
      | Some movedCollectionParent \<Rightarrow>
          (let l1 = l[movedCollectionParent :=
                     (l ! movedCollectionParent)
                       \<lparr>subCollections := remove1 ident (subCollections (l ! movedCollectionParent))\<rparr>]
           in l1[col := (l1 ! col)\<lparr>subCollections := push ident (subCollections (l1 ! col))\<rparr>]))"

text \<open>
  The handler of the tag node of \<open>tag\<close> inside the collection node \<open>col\<close>, called
  with the id of the tag that was dropped on it:
  \<^verbatim>\<open>
  onMoveTag={(movedTagId) => {
    const origCol = store.tagCollectionList.find((c) => c.tags.includes(movedTagId));
    if (!origCol) { return console.error('Could not find original collection when moving tag', movedTagId); }
    const insertionIndex = col.tags.indexOf(tag.id);
    origCol.tags.remove(movedTagId);
    col.tags.splice(insertionIndex, 0, movedTagId);
  }}
  \<close>
  When no collection holds the moved tag the handler only writes to the console and
  returns.
\<close>

definition onMoveTag :: "nat \<Rightarrow> ID \<Rightarrow> ID \<Rightarrow> tagCollectionList \<Rightarrow> tagCollectionList" where
  "onMoveTag col tag_id movedTagId l =
     (case findIndex (\<lambda>c. movedTagId \<in> set (tags c)) l of
        None \<Rightarrow> l
      | Some origCol \<Rightarrow>
          (let insertionIndex = indexOf (tags (l ! col)) tag_id;
               l1 = l[origCol := (l ! origCol)\<lparr>tags := remove1 movedTagId (tags (l ! origCol))\<rparr>]
           in l1[col := (l1 ! col)\<lparr>tags := splice_insert insertionIndex movedTagId (tags (l1 ! col))\<rparr>]))"

subsection \<open>Selecting a collection\<close>

text \<open>
  The part of \<^verbatim>\<open>handleNodeClick\<close> that runs for a clicked collection, on
  \<^verbatim>\<open>uiStore.tagSelection\<close>:
  \<^verbatim>\<open>
  const getRecursiveTags = (col: ClientTagCollection): ID[] =>
    [...col.tags, ...col.clientSubCollections.flatMap(getRecursiveTags)];
  const selectedTags = getRecursiveTags(clickedCollection);
  if (clickedCollection.isSelected) {
    selectedTags.forEach((tagId) => uiStore.tagSelection.remove(tagId));
  } else {
    selectedTags.forEach((tagId) => !uiStore.tagSelection.includes(tagId) && uiStore.tagSelection.push(tagId));
  }
  \<close>
\<close>

fun getRecursiveTags :: "CollectionNode \<Rightarrow> ID list" where
  "getRecursiveTags (CollectionNode c subs) = tags c @ concat (map getRecursiveTags subs)"

text \<open>
  Modelled from the spec: the getter \<^verbatim>\<open>isSelected\<close> of \<^verbatim>\<open>ClientTagCollection\<close> is
  not part of the sources at hand. The spec defines it: a collection is selected when
  its descendant tag ids are all in the selection, and there is at least one.
\<close>

definition isSelected :: "CollectionNode \<Rightarrow> ID list \<Rightarrow> bool" where
  "isSelected c tagSelection =
     (getRecursiveTags c \<noteq> [] \<and> set (getRecursiveTags c) \<subseteq> set tagSelection)"

definition selectMissing :: "ID \<Rightarrow> ID list \<Rightarrow> ID list" where
  "selectMissing tagId tagSelection =
     (if tagId \<in> set tagSelection then tagSelection else push tagId tagSelection)"

text \<open>
  \<open>toggleTags\<close> is the \<^verbatim>\<open>if\<close> statement, given the value that
  \<^verbatim>\<open>clickedCollection.isSelected\<close> has when it is read.
\<close>

definition toggleTags :: "bool \<Rightarrow> ID list \<Rightarrow> ID list \<Rightarrow> ID list" where
  "toggleTags selected selectedTags tagSelection =
     (if selected then fold remove1 selectedTags tagSelection
      else fold selectMissing selectedTags tagSelection)"

definition toggleCollection :: "CollectionNode \<Rightarrow> ID list \<Rightarrow> ID list" where
  "toggleCollection clickedCollection tagSelection =
     (let selectedTags = getRecursiveTags clickedCollection
      in toggleTags (isSelected clickedCollection tagSelection) selectedTags tagSelection)"

section \<open>The file store (stores/FileStore.ts)\<close>

subsection \<open>Files, the backend and the file system\<close>

text \<open>
  Modelled from the spec: \<^verbatim>\<open>IFile\<close> and \<^verbatim>\<open>ClientFile\<close> (entities/File) are not part
  of the sources at hand. A file record has an id, a path and tag ids. A
  \<^verbatim>\<open>ClientFile\<close> is an object with the same fields; \<open>oid\<close> is the identity of the
  object, given at \<^verbatim>\<open>new ClientFile\<close> from the counter \<open>nextOid\<close> of the store, so
  that two objects made from the same record are told apart.
\<close>

record IFile =
  id_file :: ID
  path :: string
  tags_file :: "ID list"

record ClientFile = IFile +
  oid :: nat

text \<open>
  Modelled from the spec: the \<^verbatim>\<open>Backend\<close> class is not part of the sources at hand.
  Its calls return promises. \<open>rejects\<close> tells whether the promise of a call rejects
  and \<open>records\<close> which file records it is fulfilled with; both may depend on the calls
  made before, so that any deterministic backend is covered. \<open>access\<close> tells whether
  \<^verbatim>\<open>fs.access(path, F_OK)\<close> is fulfilled, and \<open>generateId\<close> is the id that the
  constructor of \<^verbatim>\<open>ClientFile\<close> gives to a new file.
\<close>

datatype BackendCall =
  CreateFile ID string
| FetchFiles
| SearchFiles "ID list"
| RemoveFile ID

datatype error = BackendError

record World =
  access :: "string \<Rightarrow> bool"
  rejects :: "BackendCall list \<Rightarrow> BackendCall \<Rightarrow> bool"
  records :: "BackendCall list \<Rightarrow> BackendCall \<Rightarrow> IFile list"
  generateId :: "nat \<Rightarrow> ID"

text \<open>
  What the store does to its collaborators is kept as a sequence of events:
  a call issued to the backend (\<open>Request\<close>), an \<^verbatim>\<open>await\<close> on the promise of a call
  resuming (\<open>Settled\<close>), \<^verbatim>\<open>uiStore.deselectFile(file)\<close>, \<^verbatim>\<open>file.dispose()\<close> and
  the lines written to the console.
\<close>

datatype event =
  Request BackendCall
| Settled BackendCall
| Deselect nat
| Dispose nat
| ConsoleLog string
| ConsoleError string

record FileStore =
  fileList :: "ClientFile list"
  nextOid :: nat
  events :: "event list"

definition emit :: "event \<Rightarrow> FileStore \<Rightarrow> FileStore" where
  "emit e s = s\<lparr>events := events s @ [e]\<rparr>"

fun history :: "event list \<Rightarrow> BackendCall list" where
  "history [] = []"
| "history (Request c # es) = c # history es"
| "history (e # es) = history es"

text \<open>Issuing a call: the event, and whether the promise it returns rejects.\<close>

definition request :: "World \<Rightarrow> BackendCall \<Rightarrow> FileStore \<Rightarrow> bool \<times> FileStore" where
  "request w c s = (rejects w (history (events s)) c, emit (Request c) s)"

text \<open>\<^verbatim>\<open>new ClientFile(this).updateFromBackend(backendFile)\<close>\<close>

definition newClientFile :: "IFile \<Rightarrow> FileStore \<Rightarrow> ClientFile \<times> FileStore" where
  "newClientFile backendFile s =
     (\<lparr>id_file = id_file backendFile, path = path backendFile,
       tags_file = tags_file backendFile, oid = nextOid s\<rparr>,
      s\<lparr>nextOid := Suc (nextOid s)\<rparr>)"

subsection \<open>Adding and removing files\<close>

text \<open>
  \<^verbatim>\<open>
  async addFile(filePath: string) {
    // The function caller is responsible for handling errors.
    const file = new ClientFile(this, filePath);
    await this.backend.createFile(file.id, file.path);
    this.fileList.push(file);
    return file;
  }
  \<close>
  An \<^verbatim>\<open>async\<close> function returns a promise; the model returns \<open>Inl\<close> when it
  rejects and \<open>Inr\<close> of the value when it is fulfilled, with the store as it is then.
\<close>

definition addFile :: "World \<Rightarrow> string \<Rightarrow> FileStore \<Rightarrow> (error + ClientFile) \<times> FileStore" where
  "addFile w filePath s =
     (let file = \<lparr>id_file = generateId w (nextOid s), path = filePath, tags_file = [],
                  oid = nextOid s\<rparr>;
          s1 = s\<lparr>nextOid := Suc (nextOid s)\<rparr>
      in case request w (CreateFile (id_file file) (path file)) s1 of
           (rejected, s2) \<Rightarrow>
             (let s3 = emit (Settled (CreateFile (id_file file) (path file))) s2
              in if rejected then (Inl BackendError, s3)
                 else (Inr file, s3\<lparr>fileList := push file (fileList s3)\<rparr>)))"

text \<open>
  \<^verbatim>\<open>
  private async removeFile(file: ClientFile): Promise<void> {
    this.rootStore.uiStore.deselectFile(file);
    file.dispose();
    this.fileList.remove(file);
    return this.backend.removeFile(file);
  }
  \<close>
  The function runs to its end without suspending and hands back the promise of the
  backend; the result says whether that promise rejects. Both callers await it.
\<close>

definition removeFile :: "World \<Rightarrow> ClientFile \<Rightarrow> FileStore \<Rightarrow> bool \<times> FileStore" where
  "removeFile w file s =
     (let s1 = emit (Deselect (oid file)) s;
          s2 = emit (Dispose (oid file)) s1;
          s3 = s2\<lparr>fileList := remove1 file (fileList s2)\<rparr>
      in request w (RemoveFile (id_file file)) s3)"



subsection \<open>Reconciliation\<close>

text \<open>
  \<^verbatim>\<open>
  private filesFromBackend(backendFiles: IFile[]): ClientFile[] {
    return backendFiles.map((file) => new ClientFile(this).updateFromBackend(file));
  }
  private clearFileList() {
    this.fileList.forEach((f) => f.dispose());
    this.fileList.clear();
  }
  private replaceFileList(backendFiles: ClientFile[]) {
    this.fileList.forEach((f) => f.dispose());
    this.fileList.replace(backendFiles);
  }
  \<close>
\<close>

fun filesFromBackend :: "IFile list \<Rightarrow> FileStore \<Rightarrow> ClientFile list \<times> FileStore" where
  "filesFromBackend [] s = ([], s)"
| "filesFromBackend (file # backendFiles) s =
     (case newClientFile file s of
        (f, s1) \<Rightarrow> (case filesFromBackend backendFiles s1 of (fs, s2) \<Rightarrow> (f # fs, s2)))"

definition disposeAll :: "FileStore \<Rightarrow> FileStore" where
  "disposeAll s = fold (\<lambda>f. emit (Dispose (oid f))) (fileList s) s"

definition clearFileList :: "FileStore \<Rightarrow> FileStore" where
  "clearFileList s = (disposeAll s)\<lparr>fileList := []\<rparr>"

definition replaceFileList :: "ClientFile list \<Rightarrow> FileStore \<Rightarrow> FileStore" where
  "replaceFileList backendFiles s = (disposeAll s)\<lparr>fileList := backendFiles\<rparr>"

text \<open>
  The callback that \<^verbatim>\<open>updateFromBackend\<close> maps over the backend records:
  \<^verbatim>\<open>
  async (backendFile) => {
    try {
      await fs.access(backendFile.path, fs.constants.F_OK);
      return true;
    } catch (err) {
      this.backend.removeFile(backendFile);
      const clientFile = this.fileList.find((f) => backendFile.id === f.id);
      if (clientFile) {
        await this.removeFile(clientFile);
      }
      return false;
    }
  }
  \<close>
  The promise of the first \<^verbatim>\<open>backend.removeFile\<close> is dropped: whether it rejects
  has no effect on the callback. The promise of \<^verbatim>\<open>this.removeFile\<close> is awaited
  inside the \<^verbatim>\<open>catch\<close> block, so when it rejects the callback's promise rejects.
\<close>

definition checkExistence :: "World \<Rightarrow> IFile \<Rightarrow> FileStore \<Rightarrow> (error + bool) \<times> FileStore" where
  "checkExistence w backendFile s =
     (if access w (path backendFile) then (Inr True, s)
      else (case request w (RemoveFile (id_file backendFile)) s of
              (_, s1) \<Rightarrow>
                (case find (\<lambda>f. id_file backendFile = id_file f) (fileList s1) of
                   None \<Rightarrow> (Inr False, s1)
                 | Some clientFile \<Rightarrow>
                     (case removeFile w clientFile s1 of
                        (rejected, s2) \<Rightarrow>
                          (let s3 = emit (Settled (RemoveFile (id_file clientFile))) s2
                           in (if rejected then Inl BackendError else Inr False, s3))))))"

text \<open>
  \<^verbatim>\<open>Promise.all(backendFiles.map(...))\<close> starts every callback; each suspends at
  \<^verbatim>\<open>fs.access\<close> and resumes when its check is done, and a \<^verbatim>\<open>catch\<close> block then
  runs without interruption up to its end. The model resumes the callbacks in the
  order of the records. When a callback rejects, \<^verbatim>\<open>Promise.all\<close> rejects, but the
  other callbacks still run.
\<close>

fun existenceChecker :: "World \<Rightarrow> IFile list \<Rightarrow> FileStore \<Rightarrow> (error + bool) list \<times> FileStore" where
  "existenceChecker w [] s = ([], s)"
| "existenceChecker w (backendFile # backendFiles) s =
     (case checkExistence w backendFile s of
        (r, s1) \<Rightarrow> (case existenceChecker w backendFiles s1 of (rs, s2) \<Rightarrow> (r # rs, s2)))"

definition rejected :: "(error + bool) list \<Rightarrow> bool" where
  "rejected rs = list_ex isl rs"

text \<open>\<^verbatim>\<open>backendFiles.filter((_, i) => existenceChecker[i])\<close>\<close>

definition existingBackendFiles :: "IFile list \<Rightarrow> (error + bool) list \<Rightarrow> IFile list" where
  "existingBackendFiles backendFiles rs =
     map fst (filter (\<lambda>(file, r). r = Inr True) (zip backendFiles rs))"

text \<open>
  \<^verbatim>\<open>
  private async updateFromBackend(backendFiles: IFile[]) {
    const existenceChecker = await Promise.all(backendFiles.map(...));
    const existingBackendFiles = backendFiles.filter((_, i) => existenceChecker[i]);
    if (this.fileList.length === 0) {
      this.fileList.push(...this.filesFromBackend(existingBackendFiles));
      return;
    }
    if (existingBackendFiles.length === 0) {
      return this.clearFileList();
    }
    return this.replaceFileList(this.filesFromBackend(existingBackendFiles));
  }
  \<close>
\<close>

definition updateFromBackend :: "World \<Rightarrow> IFile list \<Rightarrow> FileStore \<Rightarrow> (error + unit) \<times> FileStore" where
  "updateFromBackend w backendFiles s =
     (case existenceChecker w backendFiles s of
        (rs, s1) \<Rightarrow>
          if rejected rs then (Inl BackendError, s1)
          else (let existing = existingBackendFiles backendFiles rs
                in if fileList s1 = []
                   then (case filesFromBackend existing s1 of
                           (files, s2) \<Rightarrow> (Inr (), s2\<lparr>fileList := fileList s2 @ files\<rparr>))
                   else if existing = [] then (Inr (), clearFileList s1)
                   else (case filesFromBackend existing s1 of
                           (files, s2) \<Rightarrow> (Inr (), replaceFileList files s2))))"

subsection \<open>Fetching\<close>

text \<open>
  \<^verbatim>\<open>
  async fetchAllFiles() {
    try {
      const fetchedFiles = await this.backend.fetchFiles();
      this.updateFromBackend(fetchedFiles);
    } catch (err) {
      console.error('Could not load all files', err);
    }
  }
  async fetchFilesByTagIDs(tags: ID[]) {
    if (tags.length === 0) {
      await this.fetchAllFiles();
    } else {
      try {
        const fetchedFiles = await this.backend.searchFiles(tags);
        this.updateFromBackend(fetchedFiles);
      } catch (e) {
        console.log('Could not find files based on tag search', e);
      }
    }
  }
  \<close>
  The promise of \<^verbatim>\<open>updateFromBackend\<close> is not awaited: whether it rejects has no
  effect on the caller. The store returned is the one reached when
  \<^verbatim>\<open>updateFromBackend\<close> has come to its end.
\<close>

definition fetchAllFiles :: "World \<Rightarrow> FileStore \<Rightarrow> (error + unit) \<times> FileStore" where
  "fetchAllFiles w s =
     (case request w FetchFiles s of
        (failed, s1) \<Rightarrow>
          (let s2 = emit (Settled FetchFiles) s1
           in if failed then (Inr (), emit (ConsoleError ''Could not load all files'') s2)
              else (let fetchedFiles = records w (history (events s)) FetchFiles
                    in (Inr (), snd (updateFromBackend w fetchedFiles s2)))))"

definition fetchFilesByTagIDs :: "World \<Rightarrow> ID list \<Rightarrow> FileStore \<Rightarrow> (error + unit) \<times> FileStore" where
  "fetchFilesByTagIDs w tgs s =
     (if tgs = [] then fetchAllFiles w s
      else (case request w (SearchFiles tgs) s of
              (failed, s1) \<Rightarrow>
                (let s2 = emit (Settled (SearchFiles tgs)) s1
                 in if failed
                    then (Inr (), emit (ConsoleLog ''Could not find files based on tag search'') s2)
                    else (let fetchedFiles = records w (history (events s)) (SearchFiles tgs)
                          in (Inr (), snd (updateFromBackend w fetchedFiles s2))))))"



text \<open>The backend record that a file object was made from.\<close>

definition toIFile :: "ClientFile \<Rightarrow> IFile" where
  "toIFile f = \<lparr>id_file = id_file f, path = path f, tags_file = tags_file f\<rparr>"

subsection \<open>Concrete inputs\<close>


definition rootCollection :: ClientTagCollection where
  "rootCollection = \<lparr>id_col = ''root'', tags = [], subCollections = []\<rparr>"

definition recordA :: IFile where
  "recordA = \<lparr>id_file = ''a'', path = ''/a'', tags_file = []\<rparr>"

definition recordB :: IFile where
  "recordB = \<lparr>id_file = ''b'', path = ''/b'', tags_file = []\<rparr>"

definition objectOf :: "IFile \<Rightarrow> nat \<Rightarrow> ClientFile" where
  "objectOf r n = \<lparr>id_file = id_file r, path = path r, tags_file = tags_file r, oid = n\<rparr>"

definition storeAB :: FileStore where
  "storeAB = \<lparr>fileList = [objectOf recordA 0, objectOf recordB 1], nextOid = 2, events = []\<rparr>"

definition world :: "string list \<Rightarrow> BackendCall list \<Rightarrow> IFile list \<Rightarrow> World" where
  "world present failing recs =
     \<lparr>access = (\<lambda>p. p \<in> set present), rejects = (\<lambda>h c. c \<in> set failing),
      records = (\<lambda>h c. recs), generateId = (\<lambda>n. ''new'')\<rparr>"

text \<open>A backend whose \<^verbatim>\<open>removeFile\<close> rejects a record that was removed before.\<close>

definition strictWorld :: World where
  "strictWorld =
     \<lparr>access = (\<lambda>p. False), rejects = (\<lambda>h c. c \<in> set h),
      records = (\<lambda>h c. []), generateId = (\<lambda>n. ''new'')\<rparr>"

section \<open>Properties of the tag tree\<close>

subsection \<open>Observable arrays\<close>

lemma findIndex_Some:
  "findIndex p l = Some i \<Longrightarrow> i < length l \<and> p (l ! i) \<and> (\<forall>j<i. \<not> p (l ! j))"
  by (induction l arbitrary: i)
     (auto split: if_splits option.splits simp: nth_Cons less_Suc_eq_0_disj)

lemma findIndex_None: "findIndex p l = None \<longleftrightarrow> (\<forall>x\<in>set l. \<not> p x)"
  by (induction l) (auto split: option.splits)

lemma indexOf_mem:
  "x \<in> set xs \<Longrightarrow>
     0 \<le> indexOf xs x \<and> indexOf xs x < int (length xs) \<and> xs ! nat (indexOf xs x) = x"
  by (induction xs) (auto simp: Let_def nat_add_distrib)

lemma indexOf_not_mem: "x \<notin> set xs \<Longrightarrow> indexOf xs x = -1"
  by (induction xs) (auto simp: Let_def)

lemma splice_insert_nth:
  "0 \<le> i \<Longrightarrow> i \<le> int (length xs) \<Longrightarrow> splice_insert i x xs ! nat i = x"
  by (auto simp: splice_insert_def Let_def nth_append min_def)

lemma set_splice_insert: "set (splice_insert i x xs) = insert x (set xs)"
proof -
  have "set (take n xs) \<union> set (drop n xs) = set xs" for n
    by (metis append_take_drop_id set_append)
  then show ?thesis by (auto simp: splice_insert_def Let_def)
qed

subsection \<open>Toggling a collection\<close>


lemma fold_remove1_distinct: "distinct S \<Longrightarrow> distinct (fold remove1 D S)"
  by (induction D arbitrary: S) auto


lemma fold_selectMissing_distinct: "distinct S \<Longrightarrow> distinct (fold selectMissing D S)"
  by (induction D arbitrary: S) (auto simp: selectMissing_def push_def)

lemma toggleCollection_distinct: "distinct S \<Longrightarrow> distinct (toggleCollection c S)"
  by (simp add: toggleCollection_def toggleTags_def Let_def fold_remove1_distinct
      fold_selectMissing_distinct)




text \<open>
  The failure does not depend on how \<^verbatim>\<open>isSelected\<close> is computed: whatever the
  getter returns at the two clicks, the selection does not come back to \<open>t1\<close> alone.
\<close>

lemma toggleTags_twice_any_flag:
  "set (toggleTags b2 [''t1'', ''t2''] (toggleTags b1 [''t1'', ''t2''] [''t1''])) \<noteq> {''t1''}"
  by (cases b1; cases b2) (simp_all add: toggleTags_def selectMissing_def push_def)

subsection \<open>Moving a collection\<close>

text \<open>
  C3, as amended. When no collection of the store lists the id among its
  sub-collections, \<^verbatim>\<open>onMoveCollection\<close> changes nothing: the id is not appended to
  the new parent.
\<close>

theorem onMoveCollection_no_parent:
  assumes "\<forall>c\<in>set l. ident \<notin> set (subCollections c)"
  shows "onMoveCollection col ident l = l"
proof -
  from assms have "findIndex (\<lambda>c. ident \<in> set (subCollections c)) l = None"
    by (simp add: findIndex_None)
  then show ?thesis by (simp add: onMoveCollection_def)
qed

theorem onMoveCollection_no_parent_witness:
  "''x'' \<notin> set (subCollections rootCollection) \<and>
   onMoveCollection 0 ''x'' [rootCollection] = [rootCollection]"
proof -
  have h: "\<forall>c\<in>set [rootCollection]. ''x'' \<notin> set (subCollections c)"
    by (simp add: rootCollection_def)
  from onMoveCollection_no_parent [OF h, of 0] h show ?thesis by simp
qed

text \<open>
  C3 as stated fails: moving an id that has no parent into the root collection leaves
  the sub-collections of the root without the id.
\<close>

theorem onMoveCollection_append_counterexample:
  "''x'' \<notin> set (subCollections (onMoveCollection 0 ''x'' [rootCollection] ! 0))"
  by (simp add: onMoveCollection_def rootCollection_def)

subsection \<open>Moving a tag\<close>

text \<open>
  C8. Let the tag \<open>T\<close> be in the collection \<open>a\<close>, once, and in no other collection,
  and let it be dropped on a tag of another collection \<open>b\<close>, which stands at index
  \<open>i\<close> there. Afterwards \<open>T\<close> is not among the tags of \<open>a\<close>, it is the tag at index
  \<open>i\<close> of \<open>b\<close>, and no collection other than \<open>b\<close> holds it.
\<close>

theorem onMoveTag_moves:
  assumes a: "a < length l" and b: "b < length l" and ab: "a \<noteq> b"
    and Ta: "T \<in> set (tags (l ! a))"
    and only: "\<forall>j<length l. T \<in> set (tags (l ! j)) \<longrightarrow> j = a"
    and dist: "distinct (tags (l ! a))"
    and dropped: "dropped \<in> set (tags (l ! b))"
  shows "let l' = onMoveTag b dropped T l; i = nat (indexOf (tags (l ! b)) dropped) in
      length l' = length l \<and>
      tags (l ! b) ! i = dropped \<and>
      T \<notin> set (tags (l' ! a)) \<and>
      tags (l' ! b) ! i = T \<and>
      (\<forall>j<length l'. j \<noteq> b \<longrightarrow> T \<notin> set (tags (l' ! j)))"
proof -
  obtain p where p: "findIndex (\<lambda>c. T \<in> set (tags c)) l = Some p"
    using a Ta findIndex_None [of "\<lambda>c. T \<in> set (tags c)" l]
    by (cases "findIndex (\<lambda>c. T \<in> set (tags c)) l") auto
  from findIndex_Some [OF p] only have pa: "p = a" by auto
  note io = indexOf_mem [OF dropped]
  show ?thesis
    using a b ab dist only io
    by (auto simp: onMoveTag_def p pa Let_def splice_insert_nth set_splice_insert
        nth_list_update)
qed

theorem onMoveTag_moves_witness:
  "tags (onMoveTag 1 ''y'' ''t''
      [\<lparr>id_col = ''A'', tags = [''t'', ''u''], subCollections = []\<rparr>,
       \<lparr>id_col = ''B'', tags = [''x'', ''y''], subCollections = []\<rparr>] ! 0) = [''u''] \<and>
   tags (onMoveTag 1 ''y'' ''t''
      [\<lparr>id_col = ''A'', tags = [''t'', ''u''], subCollections = []\<rparr>,
       \<lparr>id_col = ''B'', tags = [''x'', ''y''], subCollections = []\<rparr>] ! 1) ! 1 = ''t''"
proof -
  let ?l = "[\<lparr>id_col = ''A'', tags = [''t'', ''u''], subCollections = []\<rparr>,
             \<lparr>id_col = ''B'', tags = [''x'', ''y''], subCollections = []\<rparr>]"
  have only: "\<forall>j<length ?l. ''t'' \<in> set (tags (?l ! j)) \<longrightarrow> j = 0"
    by (simp add: less_Suc_eq nth_Cons')
  have "let l' = onMoveTag 1 ''y'' ''t'' ?l; i = nat (indexOf (tags (?l ! 1)) ''y'') in
      length l' = length ?l \<and>
      tags (?l ! 1) ! i = ''y'' \<and>
      ''t'' \<notin> set (tags (l' ! 0)) \<and>
      tags (l' ! 1) ! i = ''t'' \<and>
      (\<forall>j<length l'. j \<noteq> 1 \<longrightarrow> ''t'' \<notin> set (tags (l' ! j)))"
    by (rule onMoveTag_moves [OF _ _ _ _ only]) simp_all
  then have "tags (onMoveTag 1 ''y'' ''t'' ?l ! 1) ! 1 = ''t''"
    by (simp add: Let_def)
  moreover have "tags (onMoveTag 1 ''y'' ''t'' ?l ! 0) = [''u'']"
    by (simp add: onMoveTag_def splice_insert_def)
  ultimately show ?thesis by simp
qed

text \<open>
  When the tag is dropped on a tag of its own collection the same handler reorders the
  tags of that collection.
\<close>

lemma onMoveTag_same_collection:
  "onMoveTag 0 ''c'' ''a'' [\<lparr>id_col = ''A'', tags = [''a'', ''b'', ''c''], subCollections = []\<rparr>]
     = [\<lparr>id_col = ''A'', tags = [''b'', ''c'', ''a''], subCollections = []\<rparr>]"
  by (simp add: onMoveTag_def splice_insert_def)

subsection \<open>Expand state\<close>

lemma setExpandState_ref:
  "fst (setExpandStateRecursively c v r h) = r \<and>
   length (snd (setExpandStateRecursively c v r h)) = length h"
  "length (setExpandStateForEach cs v r h) = length h"
  by (induction c v r h and cs v r h rule: setExpandStateRecursively_setExpandStateForEach.induct)
     (auto simp: Let_def assign_def)


lemma setExpandState_content:
  "r < length h \<Longrightarrow> snd (setExpandStateRecursively c v r h) ! r =
      (\<lambda>k. if k \<in> set (collectionIds c) then Some v else (h ! r) k)"
  "r < length h \<Longrightarrow> setExpandStateForEach cs v r h ! r =
      (\<lambda>k. if k \<in> set (concat (map collectionIds cs)) then Some v else (h ! r) k)"
proof (induction c v r h and cs v r h rule: setExpandStateRecursively_setExpandStateForEach.induct)
  case (1 c subs val expandState h)
  then show ?case by (auto simp: Let_def assign_def setExpandState_ref fun_eq_iff)
next
  case (2 val expandState h)
  then show ?case by simp
next
  case (3 subCol rest val expandState h)
  then show ?case by (auto simp: Let_def assign_def setExpandState_ref fun_eq_iff)
qed




text \<open>
  The new object is made by the callers: \<^verbatim>\<open>onExpandAll\<close> passes on a reference that
  did not exist before, to a copy of the updated map.
\<close>

lemma onExpandAll_fresh:
  assumes "expandState < length h"
  shows "fst (onExpandAll c expandState h) = length h \<and>
         snd (onExpandAll c expandState h) ! length h =
           (\<lambda>k. if k \<in> set (collectionIds c) then Some True else (h ! expandState) k)"
proof -
  obtain r h1 where rh: "setExpandStateRecursively c True expandState h = (r, h1)"
    by (cases "setExpandStateRecursively c True expandState h")
  with setExpandState_ref(1) [of c True expandState h]
    setExpandState_content(1) [OF assms, of c True]
  have r: "r = expandState" and len: "length h1 = length h"
    and h1: "h1 ! expandState =
      (\<lambda>k. if k \<in> set (collectionIds c) then Some True else (h ! expandState) k)"
    by simp_all
  have "(h1 @ [h1 ! expandState]) ! length h = h1 ! expandState"
    using len by (metis nth_append_length)
  then show ?thesis by (simp add: onExpandAll_def rh spread_def r len h1)
qed

section \<open>Properties of the file store\<close>

subsection \<open>Events and the file list\<close>

lemma emit_simps [simp]:
  "fileList (emit e s) = fileList s"
  "nextOid (emit e s) = nextOid s"
  "events (emit e s) = events s @ [e]"
  by (simp_all add: emit_def)

lemma request_simps [simp]:
  "fileList (snd (request w c s)) = fileList s"
  "nextOid (snd (request w c s)) = nextOid s"
  "events (snd (request w c s)) = events s @ [Request c]"
  "fst (request w c s) = rejects w (history (events s)) c"
  by (simp_all add: request_def)

lemma removeFile_simps [simp]:
  "fileList (snd (removeFile w f s)) = remove1 f (fileList s)"
  "nextOid (snd (removeFile w f s)) = nextOid s"
  "events (snd (removeFile w f s)) =
     events s @ [Deselect (oid f), Dispose (oid f), Request (RemoveFile (id_file f))]"
  by (simp_all add: removeFile_def Let_def)



lemma fold_dispose:
  "fold (\<lambda>f. emit (Dispose (oid f))) xs s =
     s\<lparr>events := events s @ map (\<lambda>f. Dispose (oid f)) xs\<rparr>"
  by (induction xs arbitrary: s) (simp_all add: emit_def)

lemma disposeAll_eq:
  "disposeAll s = s\<lparr>events := events s @ map (\<lambda>f. Dispose (oid f)) (fileList s)\<rparr>"
  by (simp add: disposeAll_def fold_dispose)

lemma count_dispose [simp]:
  "count_list (map (\<lambda>f. Dispose (oid f)) xs) (Request c) = 0"
  by (induction xs) simp_all

subsection \<open>Adding a file\<close>

text \<open>
  C7. When the promise of \<^verbatim>\<open>backend.createFile\<close> rejects, \<^verbatim>\<open>addFile\<close> rejects and
  the file list is as before; when it is fulfilled, \<^verbatim>\<open>addFile\<close> is fulfilled with
  the new file, which has the given path and is the last element of the file list,
  after the elements that were there before.
\<close>

theorem addFile_result:
  "(rejects w (history (events s)) (CreateFile (generateId w (nextOid s)) filePath) \<longrightarrow>
      fst (addFile w filePath s) = Inl BackendError \<and>
      fileList (snd (addFile w filePath s)) = fileList s) \<and>
   (\<not> rejects w (history (events s)) (CreateFile (generateId w (nextOid s)) filePath) \<longrightarrow>
      (\<exists>file. fst (addFile w filePath s) = Inr file \<and> path file = filePath \<and>
         fileList (snd (addFile w filePath s)) = fileList s @ [file]))"
  by (simp add: addFile_def request_def emit_def push_def Let_def)

theorem addFile_result_witness:
  "fst (addFile (world [] [CreateFile ''new'' ''/n''] []) ''/n'' storeAB) = Inl BackendError \<and>
   fileList (snd (addFile (world [] [CreateFile ''new'' ''/n''] []) ''/n'' storeAB)) =
     fileList storeAB \<and>
   fileList (snd (addFile (world [] [] []) ''/n'' storeAB)) =
     fileList storeAB @ [\<lparr>id_file = ''new'', path = ''/n'', tags_file = [], oid = 2\<rparr>]"
proof -
  have 1: "rejects (world [] [CreateFile ''new'' ''/n''] []) (history (events storeAB))
             (CreateFile (generateId (world [] [CreateFile ''new'' ''/n''] []) (nextOid storeAB)) ''/n'')"
    by (simp add: world_def)
  have 2: "fileList (snd (addFile (world [] [] []) ''/n'' storeAB)) =
     fileList storeAB @ [\<lparr>id_file = ''new'', path = ''/n'', tags_file = [], oid = 2\<rparr>]"
    by (simp add: addFile_def request_def emit_def push_def world_def storeAB_def Let_def)
  from addFile_result [of "world [] [CreateFile ''new'' ''/n''] []" storeAB "''/n''"] 1 2
  show ?thesis by blast
qed

subsection \<open>Removing files by id\<close>





subsection \<open>Reconciliation\<close>

lemma filesFromBackend_snd:
  "snd (filesFromBackend bfs s) = s\<lparr>nextOid := nextOid s + length bfs\<rparr>"
  by (induction bfs arbitrary: s) (simp_all add: newClientFile_def split_beta)

lemma filesFromBackend_records:
  "map toIFile (fst (filesFromBackend bfs s)) = bfs"
  by (induction bfs arbitrary: s) (simp_all add: newClientFile_def toIFile_def split_beta)

lemma filesFromBackend_length:
  "length (fst (filesFromBackend bfs s)) = length bfs"
  by (metis filesFromBackend_records length_map)

lemma filesFromBackend_oids:
  "map oid (fst (filesFromBackend bfs s)) = [nextOid s ..< nextOid s + length bfs]"
proof (induction bfs arbitrary: s)
  case Nil
  then show ?case by simp
next
  case (Cons a bfs)
  have "[nextOid s..<Suc (nextOid s + length bfs)] =
          nextOid s # [Suc (nextOid s)..<Suc (nextOid s + length bfs)]"
    by (rule upt_conv_Cons) simp
  with Cons show ?case by (simp add: newClientFile_def split_beta del: upt_Suc)
qed

lemma checkExistence_flag:
  "fst (checkExistence w bf s) = Inr True \<longleftrightarrow> access w (path bf)"
  by (simp add: checkExistence_def Let_def split_beta split: option.splits)

lemma checkExistence_events:
  "\<exists>es. events (snd (checkExistence w bf s)) = events s @ es \<and>
     (\<forall>f\<in>set (fileList s).
        f \<in> set (fileList (snd (checkExistence w bf s))) \<or> Dispose (oid f) \<in> set es)"
proof (cases "access w (path bf)")
  case True
  then show ?thesis by (simp add: checkExistence_def)
next
  case False
  show ?thesis
  proof (cases "find (\<lambda>f. id_file bf = id_file f) (fileList s)")
    case None
    with False show ?thesis by (simp add: checkExistence_def split_beta)
  next
    case (Some cf)
    have "f \<in> set (fileList s) \<Longrightarrow> f \<notin> set (remove1 cf (fileList s)) \<Longrightarrow> f = cf" for f
      by (metis in_set_remove1)
    with False Some show ?thesis
      by (auto simp: checkExistence_def split_beta Let_def)
  qed
qed

lemma existenceChecker_existing:
  "existingBackendFiles bfs (fst (existenceChecker w bfs s)) =
     filter (\<lambda>bf. access w (path bf)) bfs"
  by (induction bfs arbitrary: s)
     (simp_all add: split_beta existingBackendFiles_def checkExistence_flag)

lemma existenceChecker_events:
  "\<exists>es. events (snd (existenceChecker w bfs s)) = events s @ es \<and>
     (\<forall>f\<in>set (fileList s).
        f \<in> set (fileList (snd (existenceChecker w bfs s))) \<or> Dispose (oid f) \<in> set es)"
proof (induction bfs arbitrary: s)
  case Nil
  then show ?case by simp
next
  case (Cons bf bfs)
  let ?s1 = "snd (checkExistence w bf s)"
  let ?s2 = "snd (existenceChecker w bfs ?s1)"
  obtain es1 where 1: "events ?s1 = events s @ es1"
    "\<forall>f\<in>set (fileList s). f \<in> set (fileList ?s1) \<or> Dispose (oid f) \<in> set es1"
    using checkExistence_events [of w bf s] by blast
  obtain es2 where 2: "events ?s2 = events ?s1 @ es2"
    "\<forall>f\<in>set (fileList ?s1). f \<in> set (fileList ?s2) \<or> Dispose (oid f) \<in> set es2"
    using Cons.IH [of ?s1] by blast
  have "events ?s2 = events s @ (es1 @ es2)" using 1 2 by simp
  moreover have "\<forall>f\<in>set (fileList s).
      f \<in> set (fileList ?s2) \<or> Dispose (oid f) \<in> set (es1 @ es2)"
    using 1 2 by auto
  ultimately show ?case by (simp add: split_beta)
qed

lemma existenceChecker_nextOid [simp]:
  "nextOid (snd (existenceChecker w bfs s)) = nextOid s"
  by (induction bfs arbitrary: s)
     (simp_all add: split_beta checkExistence_def Let_def split: option.splits)

lemma updateFromBackend_fst:
  "fst (updateFromBackend w bfs s) = Inr () \<longleftrightarrow> \<not> rejected (fst (existenceChecker w bfs s))"
  by (simp add: updateFromBackend_def split_beta Let_def)

text \<open>
  When no callback rejects, the three branches of \<^verbatim>\<open>updateFromBackend\<close> come to the
  same: what was left in the list is disposed and the list is made anew.
\<close>

lemma updateFromBackend_fulfilled:
  assumes "\<not> rejected (fst (existenceChecker w bfs s))"
  shows "snd (updateFromBackend w bfs s) =
     (let s1 = snd (existenceChecker w bfs s);
          files = fst (filesFromBackend (filter (\<lambda>bf. access w (path bf)) bfs) s1)
      in s1\<lparr>fileList := files,
            nextOid := nextOid s + length files,
            events := events s1 @ map (\<lambda>f. Dispose (oid f)) (fileList s1)\<rparr>)"
  using assms
  by (simp add: updateFromBackend_def split_beta Let_def existenceChecker_existing
      filesFromBackend_snd clearFileList_def replaceFileList_def disposeAll_eq
      filesFromBackend_length)



text \<open>
  The scenario of the spec: reconciling an empty list against two existing records
  gives their two files; reconciling again when neither path exists any more empties
  the list and disposes both.
\<close>

lemma reconcile_twice:
  "snd (updateFromBackend (world [''/a'', ''/b''] [] []) [recordA, recordB]
          \<lparr>fileList = [], nextOid = 0, events = []\<rparr>) = storeAB \<and>
   fileList (snd (updateFromBackend (world [] [] []) [recordA, recordB] storeAB)) = [] \<and>
   Dispose 0 \<in> set (events (snd (updateFromBackend (world [] [] []) [recordA, recordB] storeAB))) \<and>
   Dispose 1 \<in> set (events (snd (updateFromBackend (world [] [] []) [recordA, recordB] storeAB)))"
  by (simp add: world_def storeAB_def recordA_def recordB_def objectOf_def
      updateFromBackend_def checkExistence_def removeFile_def request_def emit_def
      rejected_def existingBackendFiles_def newClientFile_def)

text \<open>
  C2, as amended. Let every object of the file list be older than the counter of the
  store. When \<^verbatim>\<open>updateFromBackend\<close> is fulfilled, the file list holds newly made
  objects only, one for each backend record whose path exists and in the order of the
  records; every object that was in the list before has been disposed and is no longer
  in the list, whether or not its path still exists.
\<close>

theorem updateFromBackend_rebuilds:
  assumes ok: "fst (updateFromBackend w bfs s) = Inr ()"
    and wf: "\<forall>f\<in>set (fileList s). oid f < nextOid s"
  shows "\<exists>es. events (snd (updateFromBackend w bfs s)) = events s @ es \<and>
           map toIFile (fileList (snd (updateFromBackend w bfs s))) =
             filter (\<lambda>bf. access w (path bf)) bfs \<and>
           map oid (fileList (snd (updateFromBackend w bfs s))) =
             [nextOid s ..< nextOid s + length (filter (\<lambda>bf. access w (path bf)) bfs)] \<and>
           (\<forall>f\<in>set (fileList s). Dispose (oid f) \<in> set es \<and>
               oid f \<notin> set (map oid (fileList (snd (updateFromBackend w bfs s)))))"
proof -
  let ?s1 = "snd (existenceChecker w bfs s)"
  let ?ex = "filter (\<lambda>bf. access w (path bf)) bfs"
  let ?s' = "snd (updateFromBackend w bfs s)"
  from ok have nr: "\<not> rejected (fst (existenceChecker w bfs s))"
    by (simp add: updateFromBackend_fst)
  obtain es1 where es1: "events ?s1 = events s @ es1"
    "\<forall>f\<in>set (fileList s). f \<in> set (fileList ?s1) \<or> Dispose (oid f) \<in> set es1"
    using existenceChecker_events [of w bfs s] by blast
  have fl: "fileList ?s' = fst (filesFromBackend ?ex ?s1)"
    and ev: "events ?s' = events ?s1 @ map (\<lambda>f. Dispose (oid f)) (fileList ?s1)"
    by (simp_all add: updateFromBackend_fulfilled [OF nr] Let_def)
  let ?es = "es1 @ map (\<lambda>f. Dispose (oid f)) (fileList ?s1)"
  have 1: "events ?s' = events s @ ?es" using ev es1 by simp
  have 2: "map toIFile (fileList ?s') = ?ex" by (simp add: fl filesFromBackend_records)
  have 3: "map oid (fileList ?s') = [nextOid s ..< nextOid s + length ?ex]"
    by (simp add: fl filesFromBackend_oids)
  have 4: "\<forall>f\<in>set (fileList s).
      Dispose (oid f) \<in> set ?es \<and> oid f \<notin> set (map oid (fileList ?s'))"
  proof
    fix f assume f: "f \<in> set (fileList s)"
    then have "f \<in> set (fileList ?s1) \<or> Dispose (oid f) \<in> set es1" using es1(2) by blast
    then have a: "Dispose (oid f) \<in> set ?es" by auto
    from f wf have "oid f < nextOid s" by blast
    then have b: "oid f \<notin> set (map oid (fileList ?s'))" unfolding 3 by simp
    from a b show "Dispose (oid f) \<in> set ?es \<and> oid f \<notin> set (map oid (fileList ?s'))" ..
  qed
  from 1 2 3 4 show ?thesis by blast
qed

theorem updateFromBackend_rebuilds_witness:
  "fst (updateFromBackend (world [''/a'', ''/b''] [] []) [recordA, recordB] storeAB) = Inr () \<and>
   map toIFile (fileList (snd (updateFromBackend (world [''/a'', ''/b''] [] [])
     [recordA, recordB] storeAB))) = [recordA, recordB] \<and>
   map oid (fileList (snd (updateFromBackend (world [''/a'', ''/b''] [] [])
     [recordA, recordB] storeAB))) = [2, 3]"
proof -
  let ?w = "world [''/a'', ''/b''] [] []"
  let ?bfs = "[recordA, recordB]"
  have ok: "fst (updateFromBackend ?w ?bfs storeAB) = Inr ()"
    by (simp add: updateFromBackend_fst rejected_def checkExistence_def world_def
        recordA_def recordB_def)
  have wf: "\<forall>f\<in>set (fileList storeAB). oid f < nextOid storeAB"
    by (simp add: storeAB_def objectOf_def)
  have ex: "filter (\<lambda>bf. access ?w (path bf)) ?bfs = ?bfs"
    by (simp add: world_def recordA_def recordB_def)
  have n: "nextOid storeAB = 2" by (simp add: storeAB_def)
  have u: "[2 ..< 4] = [2::nat, 3]" by (simp add: upt_rec)
  from updateFromBackend_rebuilds [OF ok wf] ok show ?thesis
    unfolding ex n by (auto simp: u)
qed

text \<open>
  C2 as stated fails: the paths of both files exist, and still the object of the first
  file is disposed and the list holds another object in its place.
\<close>

theorem updateFromBackend_identity_counterexample:
  "access (world [''/a'', ''/b''] [] []) (path (objectOf recordA 0)) \<and>
   objectOf recordA 0 \<in> set (fileList storeAB) \<and>
   objectOf recordA 0 \<notin> set (fileList (snd (updateFromBackend (world [''/a'', ''/b''] [] [])
     [recordA, recordB] storeAB))) \<and>
   Dispose 0 \<in> set (events (snd (updateFromBackend (world [''/a'', ''/b''] [] [])
     [recordA, recordB] storeAB)))"
  by (simp add: world_def storeAB_def recordA_def recordB_def objectOf_def
      updateFromBackend_def checkExistence_def rejected_def existingBackendFiles_def
      newClientFile_def replaceFileList_def disposeAll_def emit_def)

subsection \<open>Stale records\<close>








text \<open>
  The second request is harmless only with a backend that accepts it: when the backend
  rejects the removal of a record that it was already asked to remove,
  \<^verbatim>\<open>updateFromBackend\<close> rejects and the list is not made anew.
\<close>

lemma strict_backend_rejects:
  "fst (updateFromBackend strictWorld [recordA] storeAB) = Inl BackendError \<and>
   fileList (snd (updateFromBackend strictWorld [recordA] storeAB)) = [objectOf recordB 1]"
  by (simp add: strictWorld_def storeAB_def recordA_def recordB_def objectOf_def
      updateFromBackend_def checkExistence_def removeFile_def request_def emit_def
      rejected_def)

subsection \<open>Fetching\<close>

text \<open>
  C6, as amended. When the promise of \<^verbatim>\<open>backend.fetchFiles\<close> rejects in
  \<^verbatim>\<open>fetchAllFiles\<close>, or in \<^verbatim>\<open>fetchFilesByTagIDs\<close> called without tags, or the
  promise of \<^verbatim>\<open>backend.searchFiles\<close> rejects in \<^verbatim>\<open>fetchFilesByTagIDs\<close> called with
  tags, the operation writes one line to the console and is fulfilled, and the file
  list is as it was before.
\<close>

theorem fetch_failure_is_logged:
  "(rejects w (history (events s)) FetchFiles \<longrightarrow>
      fetchAllFiles w s =
        (Inr (), s\<lparr>events := events s @ [Request FetchFiles, Settled FetchFiles,
                      ConsoleError ''Could not load all files'']\<rparr>)) \<and>
   (tgs \<noteq> [] \<and> rejects w (history (events s)) (SearchFiles tgs) \<longrightarrow>
      fetchFilesByTagIDs w tgs s =
        (Inr (), s\<lparr>events := events s @ [Request (SearchFiles tgs), Settled (SearchFiles tgs),
                      ConsoleLog ''Could not find files based on tag search'']\<rparr>)) \<and>
   (tgs = [] \<and> rejects w (history (events s)) FetchFiles \<longrightarrow>
      fetchFilesByTagIDs w tgs s =
        (Inr (), s\<lparr>events := events s @ [Request FetchFiles, Settled FetchFiles,
                      ConsoleError ''Could not load all files'']\<rparr>))"
  by (simp add: fetchAllFiles_def fetchFilesByTagIDs_def request_def emit_def Let_def)

theorem fetch_failure_is_logged_witness:
  "rejects (world [] [FetchFiles, SearchFiles [''t'']] [recordA]) (history (events storeAB))
     FetchFiles \<and>
   fst (fetchAllFiles (world [] [FetchFiles, SearchFiles [''t'']] [recordA]) storeAB) = Inr () \<and>
   fileList (snd (fetchAllFiles (world [] [FetchFiles, SearchFiles [''t'']] [recordA]) storeAB)) =
     fileList storeAB \<and>
   fileList (snd (fetchFilesByTagIDs (world [] [FetchFiles, SearchFiles [''t'']] [recordA])
     [''t''] storeAB)) = fileList storeAB"
proof -
  let ?w = "world [] [FetchFiles, SearchFiles [''t'']] [recordA]"
  have 1: "rejects ?w (history (events storeAB)) FetchFiles" by (simp add: world_def)
  have 2: "[''t''] \<noteq> [] \<and> rejects ?w (history (events storeAB)) (SearchFiles [''t''])"
    by (simp add: world_def)
  from fetch_failure_is_logged [of ?w storeAB "[''t'']"] 1 2
  have "fetchAllFiles ?w storeAB =
        (Inr (), storeAB\<lparr>events := events storeAB @ [Request FetchFiles, Settled FetchFiles,
                      ConsoleError ''Could not load all files'']\<rparr>)"
    and "fetchFilesByTagIDs ?w [''t''] storeAB =
        (Inr (), storeAB\<lparr>events := events storeAB @
            [Request (SearchFiles [''t'']), Settled (SearchFiles [''t'']),
             ConsoleLog ''Could not find files based on tag search'']\<rparr>)"
    by blast+
  with 1 show ?thesis by simp
qed

text \<open>
  C6 as stated fails for a failure of the backend during reconciliation: the record
  fetched has no file on disk, the backend rejects its removal, and
  \<^verbatim>\<open>fetchAllFiles\<close> ends with a changed file list and without a line on the console.
\<close>

theorem fetchAllFiles_removal_failure_counterexample:
  "rejects (world [] [RemoveFile ''a''] [recordA]) [FetchFiles] (RemoveFile ''a'') \<and>
   fileList (snd (fetchAllFiles (world [] [RemoveFile ''a''] [recordA]) storeAB)) \<noteq>
     fileList storeAB \<and>
   events (snd (fetchAllFiles (world [] [RemoveFile ''a''] [recordA]) storeAB)) =
     [Request FetchFiles, Settled FetchFiles, Request (RemoveFile ''a''), Deselect 0, Dispose 0,
      Request (RemoveFile ''a''), Settled (RemoveFile ''a'')]"
  by (simp add: world_def storeAB_def recordA_def recordB_def objectOf_def fetchAllFiles_def
      updateFromBackend_def checkExistence_def removeFile_def request_def emit_def
      rejected_def)

end
